theory Spec2Isabelle
  imports Main "HOL-Library.Word" "HOL-Library.Monad_Syntax"
begin

unbundle bit_operations_syntax

section \<open>Data model of osdepend.c\<close>

text \<open>
  The random-number part of \<^verbatim>\<open>osdepend.c\<close> keeps two file-level variables:
  \<^verbatim>\<open>static uint32_t mt_table[4]\<close> and \<^verbatim>\<open>static int rand_use_native = TRUE\<close>.
  A \<^verbatim>\<open>uint32_t\<close> is an unsigned 32-bit integer: addition, multiplication and left
  shift wrap modulo \<open>2 ^ 32\<close>, right shift is logical.
\<close>

type_synonym uint32_t = "32 word"

text \<open>
  Modelled from the spec: the type \<^verbatim>\<open>glui32\<close> is declared in \<^verbatim>\<open>glk.h\<close>, which is not
  among the sources.  The specification gives seeds and outputs as 32-bit unsigned
  integers with silent wrap-around.
\<close>

type_synonym glui32 = "32 word"

text \<open>
  Modelled from the spec: the macros \<^verbatim>\<open>TRUE\<close> and \<^verbatim>\<open>FALSE\<close> come from \<^verbatim>\<open>glulxe.h\<close>,
  which is not among the sources.  The specification gives the mode as a binary flag;
  the code only ever stores one of the two macros in \<^verbatim>\<open>rand_use_native\<close> and only
  tests it for truth, so the field is a \<open>bool\<close>, \<open>True\<close> for Native.

  The array is a list that is read with \<open>!\<close> and written with list update; the C array
  always has four cells, and every index the code uses is a constant in \<open>0..3\<close> or the
  loop counter \<open>ix < 4\<close>.  The third component \<open>os\<close> is whatever the C library and the
  operating system keep behind \<^verbatim>\<open>time\<close>, \<^verbatim>\<open>srandom\<close>, \<^verbatim>\<open>random\<close> and \<^verbatim>\<open>rand_s\<close>; the
  program never looks inside it.
\<close>

record 'x world =
  mt_table :: "uint32_t list"
  rand_use_native :: bool
  os :: 'x

section \<open>The xoshiro128** generator\<close>

text \<open>
  \<^verbatim>\<open>static uint32_t rotl(const uint32_t x, int k) { return (x << k) | (x >> (32 - k)); }\<close>
  The function is only called with \<open>k = 7\<close> and \<open>k = 11\<close>; for \<open>k\<close> outside \<open>1..31\<close> one
  of the two C shifts would be undefined.  The argument order of the source is kept.
\<close>

definition rotl :: "uint32_t \<Rightarrow> nat \<Rightarrow> uint32_t" where
  "rotl x k = (push_bit k x) OR (drop_bit (32 - k) x)"

text \<open>
  \<^verbatim>\<open>mt_random\<close>, statement by statement.  Each \<open>let\<close> is one assignment of the source;
  the table \<open>t0\<close> is the global on entry, and \<open>t1\<close> .. \<open>t6\<close> are its successive contents.
\<close>

definition mt_random :: "'x world \<Rightarrow> uint32_t \<times> 'x world" where
  "mt_random w =
    (let t0 = mt_table w;
         result = rotl ((t0 ! 1) * 5) 7 * 9;
         t = push_bit 9 (t0 ! 1);
         t1 = t0[2 := (t0 ! 2) XOR (t0 ! 0)];
         t2 = t1[3 := (t1 ! 3) XOR (t1 ! 1)];
         t3 = t2[1 := (t2 ! 1) XOR (t2 ! 2)];
         t4 = t3[0 := (t3 ! 0) XOR (t3 ! 3)];
         t5 = t4[2 := (t4 ! 2) XOR t];
         t6 = t5[3 := rotl (t5 ! 3) 11]
     in (result, w\<lparr>mt_table := t6\<rparr>))"

text \<open>
  \<^verbatim>\<open>mt_seed_random\<close>: the \<^verbatim>\<open>for (ix=0; ix<4; ix++)\<close> loop, entered with \<open>ix = 0\<close>.  The
  parameter \<open>seed\<close> is the running accumulator of the source, \<open>s\<close> its working copy.
\<close>

function mt_seed_random_loop :: "nat \<Rightarrow> glui32 \<Rightarrow> 'x world \<Rightarrow> 'x world" where
  "mt_seed_random_loop ix seed w =
    (if ix < 4 then
       (let seed = seed + 0x9E3779B9;
            s = seed;
            s = s XOR drop_bit 15 s;
            s = s * 0x85EBCA6B;
            s = s XOR drop_bit 13 s;
            s = s * 0xC2B2AE35;
            s = s XOR drop_bit 16 s
        in mt_seed_random_loop (ix + 1) seed (w\<lparr>mt_table := (mt_table w)[ix := s]\<rparr>))
     else w)"
  by pat_completeness auto
termination
  by (relation "measure (\<lambda>(ix, seed, w). 4 - ix)") auto

declare mt_seed_random_loop.simps [simp del]

definition mt_seed_random :: "glui32 \<Rightarrow> 'x world \<Rightarrow> 'x world" where
  "mt_seed_random seed w = mt_seed_random_loop 0 seed w"

section \<open>The native source: \<^verbatim>\<open>RAND_SET_SEED\<close> and \<^verbatim>\<open>RAND_GET\<close>\<close>

text \<open>
  The two macros are chosen by the preprocessor.  A build defines \<^verbatim>\<open>OS_STDC\<close>,
  \<^verbatim>\<open>OS_UNIX\<close>, \<^verbatim>\<open>OS_WINDOWS\<close> (with or without \<^verbatim>\<open>_MSC_VER\<close>), or none of them, in which
  case the \<^verbatim>\<open>#ifndef RAND_SET_SEED\<close> block supplies the macros.

  The C library is a parameter: \<open>time_NULL\<close> is \<^verbatim>\<open>time(NULL)\<close> (a \<^verbatim>\<open>time_t\<close>, read from the
  clock in \<open>os\<close>), \<open>srandom\<close> and \<open>random_long\<close> are POSIX \<^verbatim>\<open>srandom\<close> and \<^verbatim>\<open>random\<close>
  (which returns a \<^verbatim>\<open>long\<close>), and \<open>rand_s\<close> is the value Visual C++'s \<^verbatim>\<open>rand_s\<close> stores
  through its pointer argument.  Passing a \<^verbatim>\<open>time_t\<close> where a \<^verbatim>\<open>glui32\<close> or an
  \<^verbatim>\<open>unsigned\<close> is expected, and returning a \<^verbatim>\<open>long\<close> from a function of type \<^verbatim>\<open>glui32\<close>,
  reduce the value modulo \<open>2 ^ 32\<close>: that is \<open>word_of_int\<close>.
\<close>

datatype build = OS_STDC | OS_UNIX | OS_WINDOWS_MSC_VER | OS_WINDOWS | NO_NATIVE_RNG

record 'x platform =
  build :: build
  time_NULL :: "'x \<Rightarrow> int"
  srandom :: "32 word \<Rightarrow> 'x \<Rightarrow> 'x"
  random_long :: "'x \<Rightarrow> int \<times> 'x"
  rand_s :: "'x \<Rightarrow> glui32 \<times> 'x"

text \<open>\<^verbatim>\<open>static void msc_srandom() { }\<close> does nothing, as \<^verbatim>\<open>rand_s\<close> has no seed.\<close>

definition msc_srandom :: "'x world \<Rightarrow> 'x world" where
  "msc_srandom w = w"

text \<open>\<^verbatim>\<open>static glui32 msc_random() { glui32 value; rand_s(&value); return value; }\<close>\<close>

definition msc_random :: "'x platform \<Rightarrow> 'x world \<Rightarrow> glui32 \<times> 'x world" where
  "msc_random p w = (let (val, x) = rand_s p (os w) in (val, w\<lparr>os := x\<rparr>))"

definition RAND_SET_SEED :: "'x platform \<Rightarrow> 'x world \<Rightarrow> 'x world" where
  "RAND_SET_SEED p w =
    (case build p of
       OS_STDC \<Rightarrow> mt_seed_random (word_of_int (time_NULL p (os w))) w
     | OS_UNIX \<Rightarrow> w\<lparr>os := srandom p (word_of_int (time_NULL p (os w))) (os w)\<rparr>
     | OS_WINDOWS_MSC_VER \<Rightarrow> msc_srandom w
     | OS_WINDOWS \<Rightarrow> mt_seed_random (word_of_int (time_NULL p (os w))) w
     | NO_NATIVE_RNG \<Rightarrow> mt_seed_random (word_of_int (time_NULL p (os w))) w)"

definition RAND_GET :: "'x platform \<Rightarrow> 'x world \<Rightarrow> glui32 \<times> 'x world" where
  "RAND_GET p w =
    (case build p of
       OS_STDC \<Rightarrow> mt_random w
     | OS_UNIX \<Rightarrow> (let (r, x) = random_long p (os w) in (word_of_int r, w\<lparr>os := x\<rparr>))
     | OS_WINDOWS_MSC_VER \<Rightarrow> msc_random p w
     | OS_WINDOWS \<Rightarrow> mt_random w
     | NO_NATIVE_RNG \<Rightarrow> mt_random w)"

section \<open>The two entry points\<close>

definition glulx_setrandom :: "'x platform \<Rightarrow> glui32 \<Rightarrow> 'x world \<Rightarrow> 'x world" where
  "glulx_setrandom p seed w =
    (if seed = 0 then RAND_SET_SEED p (w\<lparr>rand_use_native := True\<rparr>)
     else mt_seed_random seed (w\<lparr>rand_use_native := False\<rparr>))"

definition glulx_random :: "'x platform \<Rightarrow> 'x world \<Rightarrow> glui32 \<times> 'x world" where
  "glulx_random p w = (if rand_use_native w then RAND_GET p w else mt_random w)"

text \<open>
  The state at process start: \<^verbatim>\<open>mt_table\<close> has static storage and no initialiser, so
  its four cells are zero; \<^verbatim>\<open>rand_use_native\<close> is initialised to \<^verbatim>\<open>TRUE\<close>.  Nothing in the
  file runs before the first call of an entry point.
\<close>

definition process_start :: "'x \<Rightarrow> 'x world" where
  "process_start x = \<lparr>mt_table = [0, 0, 0, 0], rand_use_native = True, os = x\<rparr>"

section \<open>The entry points with failure made explicit\<close>

text \<open>
  The same code once more, now with every way a C statement of these functions could
  go wrong written out as the result \<open>None\<close>: reading or writing \<^verbatim>\<open>mt_table\<close> outside its
  cells, and shifting a 32-bit value by a count outside the range the language defines.
  Unsigned addition and multiplication wrap and cannot fail; the shifts by the literal
  counts 9, 13, 15 and 16 are within range; the library functions are the platform's.
\<close>

definition table_read :: "uint32_t list \<Rightarrow> nat \<Rightarrow> uint32_t option" where
  "table_read t i = (if i < length t then Some (t ! i) else None)"

definition table_write :: "uint32_t list \<Rightarrow> nat \<Rightarrow> uint32_t \<Rightarrow> uint32_t list option" where
  "table_write t i v = (if i < length t then Some (t[i := v]) else None)"

text \<open>In \<^verbatim>\<open>rotl\<close> both \<^verbatim>\<open>x << k\<close> and \<^verbatim>\<open>x >> (32 - k)\<close> are defined only for \<open>0 < k < 32\<close>.\<close>

definition rotl_checked :: "uint32_t \<Rightarrow> nat \<Rightarrow> uint32_t option" where
  "rotl_checked x k =
    (if 0 < k \<and> k < 32 then Some ((push_bit k x) OR (drop_bit (32 - k) x)) else None)"

definition mt_random_checked :: "'x world \<Rightarrow> (uint32_t \<times> 'x world) option" where
  "mt_random_checked w = do {
     let t0 = mt_table w;
     a \<leftarrow> table_read t0 1;
     r \<leftarrow> rotl_checked (a * 5) 7;
     let result = r * 9;
     b \<leftarrow> table_read t0 1;
     let t = push_bit 9 b;
     x \<leftarrow> table_read t0 2; y \<leftarrow> table_read t0 0; t1 \<leftarrow> table_write t0 2 (x XOR y);
     x \<leftarrow> table_read t1 3; y \<leftarrow> table_read t1 1; t2 \<leftarrow> table_write t1 3 (x XOR y);
     x \<leftarrow> table_read t2 1; y \<leftarrow> table_read t2 2; t3 \<leftarrow> table_write t2 1 (x XOR y);
     x \<leftarrow> table_read t3 0; y \<leftarrow> table_read t3 3; t4 \<leftarrow> table_write t3 0 (x XOR y);
     x \<leftarrow> table_read t4 2; t5 \<leftarrow> table_write t4 2 (x XOR t);
     x \<leftarrow> table_read t5 3; r \<leftarrow> rotl_checked x 11; t6 \<leftarrow> table_write t5 3 r;
     Some (result, w\<lparr>mt_table := t6\<rparr>)
   }"

function mt_seed_random_loop_checked :: "nat \<Rightarrow> glui32 \<Rightarrow> 'x world \<Rightarrow> 'x world option" where
  "mt_seed_random_loop_checked ix seed w =
    (if ix < 4 then
       (let seed = seed + 0x9E3779B9;
            s = seed;
            s = s XOR drop_bit 15 s;
            s = s * 0x85EBCA6B;
            s = s XOR drop_bit 13 s;
            s = s * 0xC2B2AE35;
            s = s XOR drop_bit 16 s
        in case table_write (mt_table w) ix s of
             None \<Rightarrow> None
           | Some t \<Rightarrow> mt_seed_random_loop_checked (ix + 1) seed (w\<lparr>mt_table := t\<rparr>))
     else Some w)"
  by pat_completeness auto
termination
  by (relation "measure (\<lambda>(ix, seed, w). 4 - ix)") auto

declare mt_seed_random_loop_checked.simps [simp del]

definition mt_seed_random_checked :: "glui32 \<Rightarrow> 'x world \<Rightarrow> 'x world option" where
  "mt_seed_random_checked seed w = mt_seed_random_loop_checked 0 seed w"

definition RAND_SET_SEED_checked :: "'x platform \<Rightarrow> 'x world \<Rightarrow> 'x world option" where
  "RAND_SET_SEED_checked p w =
    (case build p of
       OS_STDC \<Rightarrow> mt_seed_random_checked (word_of_int (time_NULL p (os w))) w
     | OS_UNIX \<Rightarrow> Some (w\<lparr>os := srandom p (word_of_int (time_NULL p (os w))) (os w)\<rparr>)
     | OS_WINDOWS_MSC_VER \<Rightarrow> Some (msc_srandom w)
     | OS_WINDOWS \<Rightarrow> mt_seed_random_checked (word_of_int (time_NULL p (os w))) w
     | NO_NATIVE_RNG \<Rightarrow> mt_seed_random_checked (word_of_int (time_NULL p (os w))) w)"

definition RAND_GET_checked :: "'x platform \<Rightarrow> 'x world \<Rightarrow> (glui32 \<times> 'x world) option" where
  "RAND_GET_checked p w =
    (case build p of
       OS_STDC \<Rightarrow> mt_random_checked w
     | OS_UNIX \<Rightarrow> Some (let (r, x) = random_long p (os w) in (word_of_int r, w\<lparr>os := x\<rparr>))
     | OS_WINDOWS_MSC_VER \<Rightarrow> Some (msc_random p w)
     | OS_WINDOWS \<Rightarrow> mt_random_checked w
     | NO_NATIVE_RNG \<Rightarrow> mt_random_checked w)"

definition glulx_setrandom_checked ::
    "'x platform \<Rightarrow> glui32 \<Rightarrow> 'x world \<Rightarrow> 'x world option" where
  "glulx_setrandom_checked p seed w =
    (if seed = 0 then RAND_SET_SEED_checked p (w\<lparr>rand_use_native := True\<rparr>)
     else mt_seed_random_checked seed (w\<lparr>rand_use_native := False\<rparr>))"

definition glulx_random_checked :: "'x platform \<Rightarrow> 'x world \<Rightarrow> (glui32 \<times> 'x world) option" where
  "glulx_random_checked p w =
    (if rand_use_native w then RAND_GET_checked p w else mt_random_checked w)"

section \<open>Call sequences\<close>

text \<open>\<open>n\<close> consecutive calls of \<^verbatim>\<open>glulx_random\<close>: the values returned, in order, and the
  state left behind.\<close>

fun glulx_random_calls :: "'x platform \<Rightarrow> nat \<Rightarrow> 'x world \<Rightarrow> glui32 list \<times> 'x world" where
  "glulx_random_calls p 0 w = ([], w)"
| "glulx_random_calls p (Suc n) w =
    (let (r, w1) = glulx_random p w;
         (rs, w2) = glulx_random_calls p n w1
     in (r # rs, w2))"

text \<open>The state after \<open>n\<close> consecutive calls of \<^verbatim>\<open>mt_random\<close>.\<close>

fun mt_random_steps :: "nat \<Rightarrow> 'x world \<Rightarrow> 'x world" where
  "mt_random_steps 0 w = w"
| "mt_random_steps (Suc n) w = mt_random_steps n (snd (mt_random w))"

section \<open>The algorithms as the specification words them\<close>

text \<open>
  CoreGenerator, on state slots \<open>s0..s3\<close>: \<open>result = rotl(s1 * 5, 7) * 9\<close> with \<open>rotl\<close> a
  rotation of a 32-bit value; \<open>t = s1 << 9\<close>; then \<open>s2 ^= s0; s3 ^= s1; s1 ^= s2; s0 ^= s3\<close>;
  \<open>s2 ^= t\<close>; \<open>s3 = rotl(s3, 11)\<close>.  The rotation is the library's \<open>word_rotl\<close>, not the
  shift-and-or of the source.
\<close>

type_synonym GeneratorState = "uint32_t \<times> uint32_t \<times> uint32_t \<times> uint32_t"

definition CoreGenerator :: "GeneratorState \<Rightarrow> uint32_t \<times> GeneratorState" where
  "CoreGenerator st =
    (case st of (s0, s1, s2, s3) \<Rightarrow>
      (let result = word_rotl 7 (s1 * 5) * 9;
           t = push_bit 9 s1;
           s2 = s2 XOR s0;
           s3 = s3 XOR s1;
           s1 = s1 XOR s2;
           s0 = s0 XOR s3;
           s2 = s2 XOR t;
           s3 = word_rotl 11 s3
       in (result, (s0, s1, s2, s3))))"

definition slots :: "GeneratorState \<Rightarrow> uint32_t list" where
  "slots st = (case st of (s0, s1, s2, s3) \<Rightarrow> [s0, s1, s2, s3])"

text \<open>The outputs of \<open>n\<close> consecutive CoreGenerator steps from a given state.\<close>

fun CoreGenerator_outputs :: "nat \<Rightarrow> GeneratorState \<Rightarrow> uint32_t list" where
  "CoreGenerator_outputs 0 st = []"
| "CoreGenerator_outputs (Suc n) st =
    (case CoreGenerator st of (r, st') \<Rightarrow> r # CoreGenerator_outputs n st')"

text \<open>
  SeedExpander: a running accumulator, initialised to the seed.  For each of the four
  slots, in order: add \<open>0x9E3779B9\<close> to the accumulator, copy it into \<open>s\<close>, apply
  \<open>s ^= s >> 15; s *= 0x85EBCA6B; s ^= s >> 13; s *= 0xC2B2AE35; s ^= s >> 16\<close>, and store
  \<open>s\<close> into the slot.
\<close>

definition splitmix32_mix :: "glui32 \<Rightarrow> glui32" where
  "splitmix32_mix a =
    (let s = a;
         s = s XOR drop_bit 15 s;
         s = s * 0x85EBCA6B;
         s = s XOR drop_bit 13 s;
         s = s * 0xC2B2AE35;
         s = s XOR drop_bit 16 s
     in s)"

definition SeedExpander :: "glui32 \<Rightarrow> GeneratorState" where
  "SeedExpander seed =
    (let acc = seed;
         acc = acc + 0x9E3779B9; s0 = splitmix32_mix acc;
         acc = acc + 0x9E3779B9; s1 = splitmix32_mix acc;
         acc = acc + 0x9E3779B9; s2 = splitmix32_mix acc;
         acc = acc + 0x9E3779B9; s3 = splitmix32_mix acc
     in (s0, s1, s2, s3))"

section \<open>A concrete platform\<close>

text \<open>
  A platform whose \<open>os\<close> state is nothing but the reading of the clock, for evaluating
  the entry points on concrete inputs.  Its library random-number functions return
  zero and keep no state.
\<close>

definition clock_platform :: "build \<Rightarrow> int platform" where
  "clock_platform b =
    \<lparr>build = b, time_NULL = (\<lambda>x. x), srandom = (\<lambda>s x. x),
     random_long = (\<lambda>x. (0, x)), rand_s = (\<lambda>x. (0, x))\<rparr>"

section \<open>Facts about words\<close>

lemma rot_index:
  "k < 32 \<Longrightarrow> n < 32 \<Longrightarrow> (n + 32 - k) mod 32 = (if k \<le> n then n - k else n + 32 - k)"
  for k n :: nat
  by (auto simp add: mod_if)

text \<open>For the shift counts the code uses, the shift-and-or of the source is a rotation.\<close>

lemma rotl_word_rotl:
  assumes "0 < k" "k < 32"
  shows "rotl x k = word_rotl k x"
proof (rule bit_word_eqI)
  fix n
  assume "n < LENGTH(32)"
  then have n: "n < 32" by simp
  show "bit (rotl x k) n = bit (word_rotl k x) n"
  proof (cases "k \<le> n")
    case True
    then have "\<not> bit x (32 + n - k)"
      using bit_imp_le_length [of x "32 + n - k"] by auto
    with True assms n show ?thesis
      by (simp add: rotl_def bit_simps rot_index)
  next
    case False
    have "32 + n - k = n + 32 - k" by simp
    with False assms n show ?thesis
      by (simp add: rotl_def bit_simps rot_index)
  qed
qed

lemma xor_eq_0_iff_eq: "a XOR b = 0 \<longleftrightarrow> a = b" for a b :: "32 word"
  by (metis xor.right_neutral xor_self_eq xor.assoc xor.commute)

text \<open>A word that equals itself shifted right, or left, by a positive count is zero.\<close>

lemma drop_bit_fixed:
  fixes x :: "32 word"
  assumes "x = drop_bit k x" "0 < k"
  shows "x = 0"
proof -
  have "unat x = unat x div 2 ^ k"
    using assms(1) unat_drop_bit_eq [of k x] by (simp add: drop_bit_eq_div)
  moreover have "unat x div 2 ^ k < unat x" if "0 < unat x"
  proof -
    have "(1::nat) < 2 ^ k" using assms(2) one_less_power [of "2::nat" k] by simp
    then show ?thesis using that by (rule div_less_dividend)
  qed
  ultimately have "unat x = 0" by (cases "unat x = 0") auto
  then show ?thesis by (simp add: unat_eq_0)
qed

lemma push_bit_fixed:
  fixes x :: "32 word"
  assumes "x = push_bit k x" "0 < k"
  shows "x = 0"
proof (rule bit_word_eqI)
  fix n
  have "\<not> bit x n"
  proof (induction n rule: less_induct)
    case (less n)
    have "bit x n \<longleftrightarrow> bit (push_bit k x) n" using assms(1) by simp
    also have "\<dots> \<longleftrightarrow> k \<le> n \<and> n < 32 \<and> bit x (n - k)"
      by (auto simp add: bit_simps)
    finally show ?case using less [of "n - k"] assms(2) by auto
  qed
  then show "bit x n = bit (0 :: 32 word) n" by simp
qed

lemma rotl_eq_0:
  assumes "rotl x k = 0" "0 < k" "k < 32"
  shows "x = 0"
proof -
  have "word_rotl k x = 0" using assms by (simp add: rotl_word_rotl)
  then have "word_rotr k (word_rotl k x) = 0" by simp
  then show ?thesis by simp
qed

text \<open>The two multipliers are odd, hence invertible modulo \<open>2 ^ 32\<close>.\<close>

lemma mult_85EBCA6B_eq_0:
  fixes x :: "32 word"
  assumes "x * 0x85EBCA6B = 0"
  shows "x = 0"
proof -
  have inv: "(0x85EBCA6B * 2781581891 :: 32 word) = 1" by simp
  have "x = x * (0x85EBCA6B * 2781581891)" by (simp only: inv mult_1_right)
  also have "\<dots> = x * 0x85EBCA6B * 2781581891" by (simp only: mult.assoc)
  also have "\<dots> = 0" by (simp only: assms mult_zero_left)
  finally show ?thesis .
qed

lemma mult_C2B2AE35_eq_0:
  fixes x :: "32 word"
  assumes "x * 0xC2B2AE35 = 0"
  shows "x = 0"
proof -
  have inv: "(0xC2B2AE35 * 2127672349 :: 32 word) = 1" by simp
  have "x = x * (0xC2B2AE35 * 2127672349)" by (simp only: inv mult_1_right)
  also have "\<dots> = x * 0xC2B2AE35 * 2127672349" by (simp only: mult.assoc)
  also have "\<dots> = 0" by (simp only: assms mult_zero_left)
  finally show ?thesis .
qed

lemma splitmix32_mix_eq_0:
  assumes "splitmix32_mix a = 0"
  shows "a = 0"
proof -
  define s1 where "s1 = a XOR drop_bit 15 a"
  define s2 where "s2 = s1 * 0x85EBCA6B"
  define s3 where "s3 = s2 XOR drop_bit 13 s2"
  define s4 where "s4 = s3 * 0xC2B2AE35"
  have "s4 XOR drop_bit 16 s4 = 0"
    using assms by (simp add: splitmix32_mix_def Let_def s1_def s2_def s3_def s4_def)
  then have "s4 = 0" by (simp add: xor_eq_0_iff_eq drop_bit_fixed)
  then have "s3 = 0" unfolding s4_def by (rule mult_C2B2AE35_eq_0)
  then have "s2 = 0" unfolding s3_def by (simp add: xor_eq_0_iff_eq drop_bit_fixed)
  then have "s1 = 0" unfolding s2_def by (rule mult_85EBCA6B_eq_0)
  then show "a = 0" unfolding s1_def by (simp add: xor_eq_0_iff_eq drop_bit_fixed)
qed

section \<open>The table has four cells\<close>

lemma length_4E:
  assumes "length xs = 4"
  obtains a b c d where "xs = [a, b, c, d]"
proof -
  from assms obtain a xs1 where 1: "xs = a # xs1" "length xs1 = 3"
    by (cases xs) auto
  then obtain b xs2 where 2: "xs1 = b # xs2" "length xs2 = 2"
    by (cases xs1) auto
  then obtain c xs3 where 3: "xs2 = c # xs3" "length xs3 = 1"
    by (cases xs2) auto
  then obtain d where "xs3 = [d]"
    by (cases xs3) auto
  with 1 2 3 have "xs = [a, b, c, d]" by simp
  then show thesis by (rule that)
qed

lemma world_table_cases:
  assumes "length (mt_table w) = 4"
  obtains a b c d where "w = w\<lparr>mt_table := [a, b, c, d]\<rparr>"
proof -
  from assms obtain a b c d where "mt_table w = [a, b, c, d]"
    by (rule length_4E)
  then have "w = w\<lparr>mt_table := [a, b, c, d]\<rparr>" by simp
  then show thesis by (rule that)
qed

section \<open>The core step\<close>

lemma mt_random_table:
  "mt_random (w\<lparr>mt_table := [s0, s1, s2, s3]\<rparr>) =
    (rotl (s1 * 5) 7 * 9,
     w\<lparr>mt_table := [s0 XOR (s3 XOR s1), s1 XOR (s2 XOR s0),
                     (s2 XOR s0) XOR push_bit 9 s1, rotl (s3 XOR s1) 11]\<rparr>)"
  by (simp add: mt_random_def Let_def)

lemma mt_random_slots:
  "mt_random (w\<lparr>mt_table := slots st\<rparr>) =
    (fst (CoreGenerator st), w\<lparr>mt_table := slots (snd (CoreGenerator st))\<rparr>)"
proof -
  obtain s0 s1 s2 s3 where st: "st = (s0, s1, s2, s3)" by (cases st) auto
  show ?thesis
    by (simp add: st slots_def mt_random_table CoreGenerator_def Let_def rotl_word_rotl)
qed

lemma mt_random_frame:
  "rand_use_native (snd (mt_random w)) = rand_use_native w"
  "os (snd (mt_random w)) = os w"
  "length (mt_table (snd (mt_random w))) = length (mt_table w)"
  by (simp_all add: mt_random_def Let_def)

text \<open>
  Claim C1.  For every 32-bit state \<open>(s0, s1, s2, s3)\<close>, one call of \<^verbatim>\<open>mt_random\<close> returns
  \<open>rotl(s1 * 5, 7) * 9\<close>, with wrapping multiplication and a true 32-bit rotation, and
  leaves in the table the result of \<open>t = s1 << 9; s2 ^= s0; s3 ^= s1; s1 ^= s2; s0 ^= s3;
  s2 ^= t; s3 = rotl(s3, 11)\<close>.  Output and new table are functions of the four incoming
  words alone; the mode flag and the rest of the world pass through unchanged.
\<close>

theorem mt_random_is_CoreGenerator:
  "mt_random (w\<lparr>mt_table := [s0, s1, s2, s3]\<rparr>) =
     (fst (CoreGenerator (s0, s1, s2, s3)),
      w\<lparr>mt_table := slots (snd (CoreGenerator (s0, s1, s2, s3)))\<rparr>)
   \<and> fst (CoreGenerator (s0, s1, s2, s3)) = word_rotl 7 (s1 * 5) * 9"
  by (simp add: mt_random_table slots_def CoreGenerator_def Let_def rotl_word_rotl)

section \<open>Seed expansion\<close>

lemma mt_seed_random_loop_exit:
  "mt_seed_random_loop (Suc (Suc (Suc (Suc 0)))) seed w = w"
  by (subst mt_seed_random_loop.simps) simp

lemma mt_seed_random_loop_step:
  "ix < 4 \<Longrightarrow> mt_seed_random_loop ix seed w =
    mt_seed_random_loop (Suc ix) (seed + 0x9E3779B9)
      (w\<lparr>mt_table := (mt_table w)[ix := splitmix32_mix (seed + 0x9E3779B9)]\<rparr>)"
  by (subst mt_seed_random_loop.simps) (simp add: Let_def splitmix32_mix_def)

lemma mt_seed_random_table:
  "mt_seed_random seed (w\<lparr>mt_table := [a, b, c, d]\<rparr>) =
    w\<lparr>mt_table := slots (SeedExpander seed)\<rparr>"
proof -
  define g :: glui32 where "g = 0x9E3779B9"
  define m1 where "m1 = splitmix32_mix (seed + g)"
  define m2 where "m2 = splitmix32_mix (seed + g + g)"
  define m3 where "m3 = splitmix32_mix (seed + g + g + g)"
  define m4 where "m4 = splitmix32_mix (seed + g + g + g + g)"
  note step = mt_seed_random_loop_step [folded g_def]
  have "mt_seed_random_loop 0 seed (w\<lparr>mt_table := [a, b, c, d]\<rparr>)
      = mt_seed_random_loop (Suc 0) (seed + g) (w\<lparr>mt_table := [m1, b, c, d]\<rparr>)"
    by (subst step) (simp_all add: m1_def)
  also have "\<dots> = mt_seed_random_loop (Suc (Suc 0)) (seed + g + g)
      (w\<lparr>mt_table := [m1, m2, c, d]\<rparr>)"
    by (subst step) (simp_all add: m2_def)
  also have "\<dots> = mt_seed_random_loop (Suc (Suc (Suc 0))) (seed + g + g + g)
      (w\<lparr>mt_table := [m1, m2, m3, d]\<rparr>)"
    by (subst step) (simp_all add: m3_def)
  also have "\<dots> = mt_seed_random_loop (Suc (Suc (Suc (Suc 0)))) (seed + g + g + g + g)
      (w\<lparr>mt_table := [m1, m2, m3, m4]\<rparr>)"
    by (subst step) (simp_all add: m4_def)
  also have "\<dots> = w\<lparr>mt_table := [m1, m2, m3, m4]\<rparr>"
    by (rule mt_seed_random_loop_exit)
  finally have "mt_seed_random seed (w\<lparr>mt_table := [a, b, c, d]\<rparr>)
      = w\<lparr>mt_table := [m1, m2, m3, m4]\<rparr>"
    by (simp add: mt_seed_random_def)
  moreover have "slots (SeedExpander seed) = [m1, m2, m3, m4]"
    unfolding SeedExpander_def Let_def slots_def g_def [symmetric] m1_def m2_def m3_def m4_def
    by simp
  ultimately show ?thesis by simp
qed

lemma mt_seed_random_world:
  assumes "length (mt_table w) = 4"
  shows "mt_seed_random seed w = w\<lparr>mt_table := slots (SeedExpander seed)\<rparr>"
proof -
  from assms obtain a b c d where w: "w = w\<lparr>mt_table := [a, b, c, d]\<rparr>"
    by (rule world_table_cases)
  have "mt_seed_random seed (w\<lparr>mt_table := [a, b, c, d]\<rparr>)
      = w\<lparr>mt_table := slots (SeedExpander seed)\<rparr>"
    by (rule mt_seed_random_table)
  with w show ?thesis by simp
qed

text \<open>
  Claim C2.  For every 32-bit seed and whatever the four cells held before,
  \<^verbatim>\<open>mt_seed_random\<close> fills the table, slot by slot in the order 0..3, with the SplitMix32
  mix of an accumulator that starts at the seed and has \<open>0x9E3779B9\<close> added before each
  slot; all arithmetic wraps at 32 bits.  Nothing but the table changes.
\<close>

theorem mt_seed_random_is_SeedExpander:
  "mt_seed_random seed (w\<lparr>mt_table := [a, b, c, d]\<rparr>) =
     w\<lparr>mt_table := slots (SeedExpander seed)\<rparr>
   \<and> slots (SeedExpander seed) =
     [splitmix32_mix (seed + 0x9E3779B9),
      splitmix32_mix (seed + 0x9E3779B9 + 0x9E3779B9),
      splitmix32_mix (seed + 0x9E3779B9 + 0x9E3779B9 + 0x9E3779B9),
      splitmix32_mix (seed + 0x9E3779B9 + 0x9E3779B9 + 0x9E3779B9 + 0x9E3779B9)]"
  by (simp add: mt_seed_random_table) (simp add: SeedExpander_def slots_def Let_def)


lemma mt_seed_random_loop_frame:
  "rand_use_native (mt_seed_random_loop ix seed w) = rand_use_native w
   \<and> os (mt_seed_random_loop ix seed w) = os w
   \<and> length (mt_table (mt_seed_random_loop ix seed w)) = length (mt_table w)"
proof (induction ix seed w rule: mt_seed_random_loop.induct)
  case (1 ix seed w)
  show ?case
  proof (cases "ix < 4")
    case True
    with "1.IH" show ?thesis
      by (subst (1 2 3) mt_seed_random_loop.simps) (simp add: Let_def)
  next
    case False
    then show ?thesis
      by (subst (1 2 3) mt_seed_random_loop.simps) simp
  qed
qed

lemma mt_seed_random_frame:
  "rand_use_native (mt_seed_random seed w) = rand_use_native w"
  "os (mt_seed_random seed w) = os w"
  "length (mt_table (mt_seed_random seed w)) = length (mt_table w)"
  by (simp_all add: mt_seed_random_def mt_seed_random_loop_frame)

section \<open>The native source\<close>

lemma RAND_SET_SEED_frame:
  "rand_use_native (RAND_SET_SEED p w) = rand_use_native w"
  "length (mt_table (RAND_SET_SEED p w)) = length (mt_table w)"
  by (cases "build p"; simp add: RAND_SET_SEED_def msc_srandom_def mt_seed_random_frame)+

lemma RAND_GET_flag:
  "rand_use_native (snd (RAND_GET p w)) = rand_use_native w"
  by (cases "build p")
    (simp_all add: RAND_GET_def msc_random_def mt_random_frame split_def Let_def)

lemma RAND_GET_table:
  "mt_table (snd (RAND_GET p w)) =
    (case build p of
       OS_STDC \<Rightarrow> mt_table (snd (mt_random w))
     | OS_UNIX \<Rightarrow> mt_table w
     | OS_WINDOWS_MSC_VER \<Rightarrow> mt_table w
     | OS_WINDOWS \<Rightarrow> mt_table (snd (mt_random w))
     | NO_NATIVE_RNG \<Rightarrow> mt_table (snd (mt_random w)))"
  by (cases "build p") (simp_all add: RAND_GET_def msc_random_def split_def Let_def)

section \<open>Setting the seed\<close>

lemma glulx_setrandom_flag:
  "rand_use_native (glulx_setrandom p seed w) = (seed = 0)"
  by (simp add: glulx_setrandom_def RAND_SET_SEED_frame mt_seed_random_frame)

lemma glulx_setrandom_length:
  "length (mt_table (glulx_setrandom p seed w)) = length (mt_table w)"
  by (simp add: glulx_setrandom_def RAND_SET_SEED_frame mt_seed_random_frame)

lemma glulx_setrandom_nonzero:
  assumes "seed \<noteq> 0" "length (mt_table w) = 4"
  shows "glulx_setrandom p seed w =
    w\<lparr>mt_table := slots (SeedExpander seed), rand_use_native := False\<rparr>"
  using assms by (simp add: glulx_setrandom_def mt_seed_random_world)

text \<open>
  Claim C3.  \<^verbatim>\<open>glulx_setrandom\<close> with seed 0 sets the mode to Native and runs the native
  source's reseed \<^verbatim>\<open>RAND_SET_SEED\<close>; with any other seed it sets the mode to
  Deterministic and resets the table to the seed expansion of that seed, changing
  nothing else.  The mode afterwards is Native exactly when the seed was 0.
\<close>

theorem glulx_setrandom_by_seed:
  "glulx_setrandom p seed (w\<lparr>mt_table := [a, b, c, d]\<rparr>) =
     (if seed = 0
      then RAND_SET_SEED p (w\<lparr>mt_table := [a, b, c, d], rand_use_native := True\<rparr>)
      else w\<lparr>mt_table := slots (SeedExpander seed), rand_use_native := False\<rparr>)
   \<and> rand_use_native (glulx_setrandom p seed (w\<lparr>mt_table := [a, b, c, d]\<rparr>)) = (seed = 0)"
proof -
  have "length (mt_table (w\<lparr>mt_table := [a, b, c, d]\<rparr>)) = 4" by simp
  then have "seed \<noteq> 0 \<Longrightarrow> glulx_setrandom p seed (w\<lparr>mt_table := [a, b, c, d]\<rparr>) =
      w\<lparr>mt_table := slots (SeedExpander seed), rand_use_native := False\<rparr>"
    using glulx_setrandom_nonzero [of seed "w\<lparr>mt_table := [a, b, c, d]\<rparr>" p] by simp
  moreover have "glulx_setrandom p 0 (w\<lparr>mt_table := [a, b, c, d]\<rparr>) =
      RAND_SET_SEED p (w\<lparr>mt_table := [a, b, c, d], rand_use_native := True\<rparr>)"
    by (simp add: glulx_setrandom_def)
  ultimately show ?thesis
    by (simp add: glulx_setrandom_flag)
qed

section \<open>Drawing numbers\<close>

lemma glulx_random_deterministic:
  "glulx_random p (w\<lparr>mt_table := slots st, rand_use_native := False\<rparr>) =
    (fst (CoreGenerator st),
     w\<lparr>mt_table := slots (snd (CoreGenerator st)), rand_use_native := False\<rparr>)"
proof -
  have swap: "w\<lparr>rand_use_native := False, mt_table := t\<rparr> =
      w\<lparr>mt_table := t, rand_use_native := False\<rparr>" for t
    by simp
  show ?thesis
    using mt_random_slots [where w = "w\<lparr>rand_use_native := False\<rparr>" and st = st]
    by (simp add: glulx_random_def swap)
qed

section \<open>No call fails\<close>

text \<open>On a table with its four cells the checked step succeeds and is the plain step.\<close>

lemma mt_random_checked_table:
  "mt_random_checked (w\<lparr>mt_table := [s0, s1, s2, s3]\<rparr>) =
    Some (mt_random (w\<lparr>mt_table := [s0, s1, s2, s3]\<rparr>))"
  by (simp add: mt_random_checked_def mt_random_def table_read_def table_write_def
      rotl_checked_def rotl_def Let_def)

lemma mt_random_checked_world:
  assumes "length (mt_table w) = 4"
  shows "mt_random_checked w = Some (mt_random w)"
proof -
  from assms obtain a b c d where w: "w = w\<lparr>mt_table := [a, b, c, d]\<rparr>"
    by (rule world_table_cases)
  have "mt_random_checked (w\<lparr>mt_table := [a, b, c, d]\<rparr>) =
      Some (mt_random (w\<lparr>mt_table := [a, b, c, d]\<rparr>))"
    by (rule mt_random_checked_table)
  with w show ?thesis by simp
qed

lemma mt_seed_random_loop_checked_world:
  "length (mt_table w) = 4 \<Longrightarrow>
    mt_seed_random_loop_checked ix seed w = Some (mt_seed_random_loop ix seed w)"
proof (induction ix seed w rule: mt_seed_random_loop.induct)
  case (1 ix seed w)
  show ?case
  proof (cases "ix < 4")
    case True
    with "1.IH" "1.prems" show ?thesis
      by (subst mt_seed_random_loop_checked.simps, subst mt_seed_random_loop.simps)
        (simp add: Let_def table_write_def)
  next
    case False
    then show ?thesis
      by (subst mt_seed_random_loop_checked.simps, subst mt_seed_random_loop.simps) simp
  qed
qed

lemma mt_seed_random_checked_world:
  assumes "length (mt_table w) = 4"
  shows "mt_seed_random_checked seed w = Some (mt_seed_random seed w)"
  using assms
  by (simp add: mt_seed_random_checked_def mt_seed_random_def
      mt_seed_random_loop_checked_world)

lemma RAND_SET_SEED_checked_world:
  assumes "length (mt_table w) = 4"
  shows "RAND_SET_SEED_checked p w = Some (RAND_SET_SEED p w)"
  using assms
  by (cases "build p")
    (simp_all add: RAND_SET_SEED_checked_def RAND_SET_SEED_def mt_seed_random_checked_world)

lemma RAND_GET_checked_world:
  assumes "length (mt_table w) = 4"
  shows "RAND_GET_checked p w = Some (RAND_GET p w)"
  using assms
  by (cases "build p")
    (simp_all add: RAND_GET_checked_def RAND_GET_def mt_random_checked_world)

lemma glulx_setrandom_checked_world:
  assumes "length (mt_table w) = 4"
  shows "glulx_setrandom_checked p seed w = Some (glulx_setrandom p seed w)"
  using assms
  by (simp add: glulx_setrandom_checked_def glulx_setrandom_def
      RAND_SET_SEED_checked_world mt_seed_random_checked_world)

lemma glulx_random_checked_world:
  assumes "length (mt_table w) = 4"
  shows "glulx_random_checked p w = Some (glulx_random p w)"
  using assms
  by (simp add: glulx_random_checked_def glulx_random_def
      RAND_GET_checked_world mt_random_checked_world)

text \<open>
  The checks are live: were the table one cell short, the step and the seeding would
  run off its end.
\<close>

lemma mt_random_checked_short_table:
  "mt_random_checked (w\<lparr>mt_table := [s0, s1, s2]\<rparr>) = None"
  by (simp add: mt_random_checked_def table_read_def table_write_def rotl_checked_def Let_def)

lemma mt_seed_random_checked_short_table:
  "mt_seed_random_checked seed (w\<lparr>mt_table := [s0, s1, s2]\<rparr>) = None"
  unfolding mt_seed_random_checked_def
  apply (subst mt_seed_random_loop_checked.simps, simp add: Let_def table_write_def)
  apply (subst mt_seed_random_loop_checked.simps, simp add: Let_def table_write_def)
  apply (subst mt_seed_random_loop_checked.simps, simp add: Let_def table_write_def)
  apply (subst mt_seed_random_loop_checked.simps, simp add: Let_def table_write_def)
  done

lemma rotl_checked_out_of_range: "rotl_checked x 0 = None" "rotl_checked x 32 = None"
  by (simp_all add: rotl_checked_def)

lemma glulx_random_length:
  "length (mt_table (snd (glulx_random p w))) = length (mt_table w)"
  by (cases "build p")
    (simp_all add: glulx_random_def RAND_GET_table mt_random_frame)

text \<open>
  Claim C4.  In Native mode \<^verbatim>\<open>glulx_random\<close> is \<^verbatim>\<open>RAND_GET\<close>: it returns the native
  source's output unchanged.  In Deterministic mode it returns the CoreGenerator output
  for the current table and stores the CoreGenerator's next state.  Neither entry point
  can fail: on every four-cell table, in either mode, on every build and for every
  seed, the version of \<^verbatim>\<open>glulx_random\<close> and of \<^verbatim>\<open>glulx_setrandom\<close> that checks each table
  index and each shift count returns a result, the one of the plain function, and the
  table has its four cells again afterwards, so the same holds for the next call.
\<close>

theorem glulx_random_by_mode:
  "glulx_random p (w\<lparr>rand_use_native := True\<rparr>) = RAND_GET p (w\<lparr>rand_use_native := True\<rparr>)
   \<and> glulx_random p (w\<lparr>mt_table := [s0, s1, s2, s3], rand_use_native := False\<rparr>) =
       (fst (CoreGenerator (s0, s1, s2, s3)),
        w\<lparr>mt_table := slots (snd (CoreGenerator (s0, s1, s2, s3))),
          rand_use_native := False\<rparr>)
   \<and> glulx_random_checked p (w\<lparr>mt_table := [s0, s1, s2, s3]\<rparr>) =
       Some (glulx_random p (w\<lparr>mt_table := [s0, s1, s2, s3]\<rparr>))
   \<and> glulx_setrandom_checked p seed (w\<lparr>mt_table := [s0, s1, s2, s3]\<rparr>) =
       Some (glulx_setrandom p seed (w\<lparr>mt_table := [s0, s1, s2, s3]\<rparr>))
   \<and> length (mt_table (snd (glulx_random p (w\<lparr>mt_table := [s0, s1, s2, s3]\<rparr>)))) = 4
   \<and> length (mt_table (glulx_setrandom p seed (w\<lparr>mt_table := [s0, s1, s2, s3]\<rparr>))) = 4"
proof -
  let ?w = "w\<lparr>mt_table := [s0, s1, s2, s3]\<rparr>"
  have native: "glulx_random p (w\<lparr>rand_use_native := True\<rparr>) =
      RAND_GET p (w\<lparr>rand_use_native := True\<rparr>)"
    by (simp add: glulx_random_def)
  have "slots (s0, s1, s2, s3) = [s0, s1, s2, s3]"
    by (simp add: slots_def)
  with glulx_random_deterministic [where w = w and st = "(s0, s1, s2, s3)" and p = p]
  have det: "glulx_random p (w\<lparr>mt_table := [s0, s1, s2, s3], rand_use_native := False\<rparr>) =
       (fst (CoreGenerator (s0, s1, s2, s3)),
        w\<lparr>mt_table := slots (snd (CoreGenerator (s0, s1, s2, s3))),
          rand_use_native := False\<rparr>)"
    by simp
  have four: "length (mt_table ?w) = 4"
    by simp
  from four have get: "glulx_random_checked p ?w = Some (glulx_random p ?w)"
    by (rule glulx_random_checked_world)
  from four have set: "glulx_setrandom_checked p seed ?w = Some (glulx_setrandom p seed ?w)"
    by (rule glulx_setrandom_checked_world)
  from four have get4: "length (mt_table (snd (glulx_random p ?w))) = 4"
    by (simp only: glulx_random_length)
  from four have set4: "length (mt_table (glulx_setrandom p seed ?w)) = 4"
    by (simp only: glulx_setrandom_length)
  from native det get set get4 set4 show ?thesis
    by (intro conjI)
qed

lemma glulx_random_calls_deterministic:
  "fst (glulx_random_calls p n (w\<lparr>mt_table := slots st, rand_use_native := False\<rparr>)) =
    CoreGenerator_outputs n st"
proof (induction n arbitrary: st)
  case 0
  show ?case by simp
next
  case (Suc n)
  show ?case
    by (simp add: glulx_random_deterministic split_def Suc.IH)
qed

lemma seeded_outputs:
  assumes "seed \<noteq> 0" "length (mt_table w) = 4"
  shows "fst (glulx_random_calls p n (glulx_setrandom p seed w)) =
    CoreGenerator_outputs n (SeedExpander seed)"
  using assms by (simp add: glulx_setrandom_nonzero glulx_random_calls_deterministic)

text \<open>
  Claim C5.  For every nonzero seed and from any prior state, \<^verbatim>\<open>glulx_setrandom(0)\<close>
  followed by \<^verbatim>\<open>glulx_setrandom(seed)\<close> leaves a system whose next \<open>n\<close> outputs, for
  every \<open>n\<close>, are those of a fresh process on which only \<^verbatim>\<open>glulx_setrandom(seed)\<close> was
  called.
\<close>

theorem setrandom_0_then_seed:
  assumes "seed \<noteq> 0" "length (mt_table w) = 4"
  shows "fst (glulx_random_calls p n (glulx_setrandom p seed (glulx_setrandom p 0 w))) =
    fst (glulx_random_calls p n (glulx_setrandom p seed (process_start x)))"
proof -
  have "length (mt_table (glulx_setrandom p 0 w)) = 4"
    using assms(2) by (simp add: glulx_setrandom_length)
  with assms(1)
  have "fst (glulx_random_calls p n (glulx_setrandom p seed (glulx_setrandom p 0 w))) =
      CoreGenerator_outputs n (SeedExpander seed)"
    by (rule seeded_outputs)
  moreover have "length (mt_table (process_start x)) = 4"
    by (simp add: process_start_def)
  with assms(1)
  have "fst (glulx_random_calls p n (glulx_setrandom p seed (process_start x))) =
      CoreGenerator_outputs n (SeedExpander seed)"
    by (rule seeded_outputs)
  ultimately show ?thesis by simp
qed

theorem setrandom_0_then_seed_witness:
  "(12345 :: glui32) \<noteq> 0
   \<and> length (mt_table (process_start (7::int))) = 4
   \<and> fst (glulx_random_calls (clock_platform OS_STDC) 10000
        (glulx_setrandom (clock_platform OS_STDC) 12345
          (glulx_setrandom (clock_platform OS_STDC) 0 (process_start 7)))) =
     fst (glulx_random_calls (clock_platform OS_STDC) 10000
        (glulx_setrandom (clock_platform OS_STDC) 12345 (process_start 7)))"
proof -
  have 1: "(12345 :: glui32) \<noteq> 0" by simp
  have 2: "length (mt_table (process_start (7::int))) = 4" by (simp add: process_start_def)
  from 1 2 setrandom_0_then_seed [OF 1 2] show ?thesis by blast
qed

text \<open>
  Claim C6.  For every nonzero seed, two independent runs, from any two prior states
  and on any two builds, that call \<^verbatim>\<open>glulx_setrandom(seed)\<close> and then \<^verbatim>\<open>glulx_random\<close>
  \<open>n\<close> times obtain the same outputs, element for element, for every \<open>n\<close> (10,000 and
  beyond): the sequence is the CoreGenerator's output from the seed's expansion, a
  function of the seed alone.
\<close>

theorem deterministic_sequence:
  assumes "seed \<noteq> 0" "length (mt_table w1) = 4" "length (mt_table w2) = 4"
  shows "fst (glulx_random_calls p1 n (glulx_setrandom p1 seed w1)) =
      fst (glulx_random_calls p2 n (glulx_setrandom p2 seed w2))
    \<and> fst (glulx_random_calls p1 n (glulx_setrandom p1 seed w1)) =
      CoreGenerator_outputs n (SeedExpander seed)"
  using assms by (simp add: seeded_outputs)

theorem deterministic_sequence_witness:
  "(12345 :: glui32) \<noteq> 0
   \<and> length (mt_table (process_start (7::int))) = 4
   \<and> length (mt_table (process_start (8::int))) = 4
   \<and> fst (glulx_random_calls (clock_platform OS_UNIX) 10000
        (glulx_setrandom (clock_platform OS_UNIX) 12345 (process_start 7))) =
      fst (glulx_random_calls (clock_platform NO_NATIVE_RNG) 10000
        (glulx_setrandom (clock_platform NO_NATIVE_RNG) 12345 (process_start 8)))
   \<and> fst (glulx_random_calls (clock_platform OS_UNIX) 10000
        (glulx_setrandom (clock_platform OS_UNIX) 12345 (process_start 7))) =
      CoreGenerator_outputs 10000 (SeedExpander 12345)"
proof -
  have 1: "(12345 :: glui32) \<noteq> 0" by simp
  have 2: "length (mt_table (process_start (7::int))) = 4" by (simp add: process_start_def)
  have 3: "length (mt_table (process_start (8::int))) = 4" by (simp add: process_start_def)
  from 1 2 3 deterministic_sequence [OF 1 2 3] show ?thesis by blast
qed


section \<open>The all-zero table\<close>

lemma SeedExpander_nonzero: "slots (SeedExpander seed) \<noteq> [0, 0, 0, 0]"
proof
  assume a: "slots (SeedExpander seed) = [0, 0, 0, 0]"
  define g :: glui32 where "g = 0x9E3779B9"
  from a have "splitmix32_mix (seed + g) = 0" "splitmix32_mix (seed + g + g) = 0"
    by (simp_all add: SeedExpander_def slots_def Let_def g_def [symmetric])
  then have "seed + g = 0" "seed + g + g = 0"
    by (auto dest: splitmix32_mix_eq_0)
  then have "g = 0" by simp
  then show False by (simp add: g_def)
qed

text \<open>The core step is injective at zero: only the all-zero table steps to it.\<close>

lemma mt_random_zero_table:
  assumes "mt_table (snd (mt_random (w\<lparr>mt_table := [s0, s1, s2, s3]\<rparr>))) = [0, 0, 0, 0]"
  shows "[s0, s1, s2, s3] = [0, 0, 0, 0]"
proof -
  from assms have e: "s0 XOR (s3 XOR s1) = 0" "s1 XOR (s2 XOR s0) = 0"
      "(s2 XOR s0) XOR push_bit 9 s1 = 0" "rotl (s3 XOR s1) 11 = 0"
    by (simp_all add: mt_random_table)
  from e(4) have s31: "s3 XOR s1 = 0" by (rule rotl_eq_0) simp_all
  with e(1) have s0: "s0 = 0" by simp
  with e(2) have s12: "s1 = s2" by (simp add: xor_eq_0_iff_eq)
  with e(3) s0 have "s1 = push_bit 9 s1" by (simp add: xor_eq_0_iff_eq)
  then have "s1 = 0" by (rule push_bit_fixed) simp
  with s12 s31 s0 show ?thesis by simp
qed

lemma mt_random_keeps_nonzero:
  assumes "length (mt_table w) = 4" "mt_table w \<noteq> [0, 0, 0, 0]"
  shows "mt_table (snd (mt_random w)) \<noteq> [0, 0, 0, 0]"
proof
  assume z: "mt_table (snd (mt_random w)) = [0, 0, 0, 0]"
  from assms(1) obtain a b c d where t: "mt_table w = [a, b, c, d]"
    by (rule length_4E)
  then have "w = w\<lparr>mt_table := [a, b, c, d]\<rparr>" by simp
  with z have "mt_table (snd (mt_random (w\<lparr>mt_table := [a, b, c, d]\<rparr>))) = [0, 0, 0, 0]"
    by simp
  then have "[a, b, c, d] = [0, 0, 0, 0]" by (rule mt_random_zero_table)
  with t assms(2) show False by simp
qed

lemma mt_random_steps_nonzero:
  assumes "length (mt_table w) = 4" "mt_table w \<noteq> [0, 0, 0, 0]"
  shows "mt_table (mt_random_steps n w) \<noteq> [0, 0, 0, 0]"
  using assms
proof (induction n arbitrary: w)
  case 0
  then show ?case by simp
next
  case (Suc n)
  have "length (mt_table (snd (mt_random w))) = 4"
    using Suc.prems(1) by (simp add: mt_random_frame)
  moreover have "mt_table (snd (mt_random w)) \<noteq> [0, 0, 0, 0]"
    using Suc.prems by (rule mt_random_keeps_nonzero)
  ultimately show ?case by (simp add: Suc.IH)
qed

lemma seeded_steps_nonzero:
  assumes "length (mt_table w) = 4"
  shows "mt_table (mt_random_steps n (mt_seed_random seed w)) \<noteq> [0, 0, 0, 0]"
proof (rule mt_random_steps_nonzero)
  show "length (mt_table (mt_seed_random seed w)) = 4"
    using assms by (simp add: mt_seed_random_frame)
  show "mt_table (mt_seed_random seed w) \<noteq> [0, 0, 0, 0]"
    using assms by (simp add: mt_seed_random_world SeedExpander_nonzero)
qed

text \<open>
  Claim C7.  For every seed in \<open>[1, 2^32 - 1]\<close>, the table produced by \<^verbatim>\<open>mt_seed_random\<close> is
  not all-zero (\<open>n = 0\<close>), and it is not all-zero after any number \<open>n \<le> 2^16\<close> of
  \<^verbatim>\<open>mt_random\<close> steps.  The table is taken to have its four cells before seeding.
\<close>

theorem no_zero_table_within_2_16_steps:
  assumes "seed \<noteq> 0" "n \<le> 2 ^ 16" "length (mt_table w) = 4"
  shows "mt_table (mt_random_steps n (mt_seed_random seed w)) \<noteq> [0, 0, 0, 0]"
  using assms(3) by (rule seeded_steps_nonzero)

theorem no_zero_table_within_2_16_steps_witness:
  "(1 :: glui32) \<noteq> 0 \<and> (65536 :: nat) \<le> 2 ^ 16
   \<and> length (mt_table (process_start ())) = 4
   \<and> mt_table (mt_random_steps 65536 (mt_seed_random 1 (process_start ()))) \<noteq> [0, 0, 0, 0]"
proof -
  have 1: "(1 :: glui32) \<noteq> 0" by simp
  have 2: "(65536 :: nat) \<le> 2 ^ 16" by simp
  have 3: "length (mt_table (process_start ())) = 4" by (simp add: process_start_def)
  from 1 2 3 no_zero_table_within_2_16_steps [OF 1 2 3] show ?thesis by blast
qed

section \<open>Before the first seeding\<close>

lemma mt_random_process_start: "mt_random (process_start x) = (0, process_start x)"
  by (simp add: mt_random_def process_start_def Let_def rotl_def)

lemma glulx_random_process_start:
  "glulx_random p (process_start x) = RAND_GET p (process_start x)"
  by (simp add: glulx_random_def process_start_def)

lemma RAND_GET_process_start:
  "fst (RAND_GET p (process_start x)) =
    (case build p of
       OS_STDC \<Rightarrow> 0
     | OS_UNIX \<Rightarrow> word_of_int (fst (random_long p x))
     | OS_WINDOWS_MSC_VER \<Rightarrow> fst (rand_s p x)
     | OS_WINDOWS \<Rightarrow> 0
     | NO_NATIVE_RNG \<Rightarrow> 0)"
  by (cases "build p")
    (simp_all add: RAND_GET_def msc_random_def mt_random_process_start split_def Let_def,
     simp_all add: process_start_def)

lemma first_output_seed_1:
  "fst (mt_random (mt_seed_random 1 (process_start x))) = 1144403687"
proof -
  have "mt_seed_random 1 (process_start x) =
      (process_start x)\<lparr>mt_table := slots (SeedExpander 1)\<rparr>"
    by (rule mt_seed_random_world) (simp add: process_start_def)
  moreover have "slots (SeedExpander 1) = [112534334, 2466076606, 3094215072, 916842724]"
    by (simp add: SeedExpander_def slots_def splitmix32_mix_def Let_def)
  ultimately show ?thesis
    by (simp add: mt_random_table rotl_def)
qed

lemma seeded_table_seed_1:
  "mt_table (mt_seed_random 1 (process_start x)) =
    [112534334, 2466076606, 3094215072, 916842724]"
proof -
  have "mt_seed_random 1 (process_start x) =
      (process_start x)\<lparr>mt_table := slots (SeedExpander 1)\<rparr>"
    by (rule mt_seed_random_world) (simp add: process_start_def)
  then show ?thesis
    by (simp add: SeedExpander_def slots_def splitmix32_mix_def Let_def)
qed

text \<open>
  Claim C8, as stated, fails.  On a build without a native RNG whose clock reads 1,
  the table at process start is not the table \<^verbatim>\<open>RAND_SET_SEED\<close> would leave, and the
  first call of \<^verbatim>\<open>glulx_random\<close> does not return what the time-seeded native source
  would return.
\<close>

theorem process_start_time_seeded_counterexample:
  "mt_table (process_start (1::int)) \<noteq>
     mt_table (RAND_SET_SEED (clock_platform NO_NATIVE_RNG) (process_start 1))
   \<and> fst (glulx_random (clock_platform NO_NATIVE_RNG) (process_start 1)) \<noteq>
     fst (RAND_GET (clock_platform NO_NATIVE_RNG)
       (RAND_SET_SEED (clock_platform NO_NATIVE_RNG) (process_start 1)))"
proof -
  have seed: "RAND_SET_SEED (clock_platform NO_NATIVE_RNG) (process_start 1) =
      mt_seed_random 1 (process_start 1)"
    by (simp add: RAND_SET_SEED_def clock_platform_def process_start_def)
  have "mt_table (process_start (1::int)) = [0, 0, 0, 0]"
    by (simp add: process_start_def)
  moreover have "fst (glulx_random (clock_platform NO_NATIVE_RNG) (process_start 1)) = 0"
    by (simp add: glulx_random_process_start RAND_GET_process_start clock_platform_def)
  moreover have "fst (RAND_GET (clock_platform NO_NATIVE_RNG)
      (mt_seed_random 1 (process_start 1))) = 1144403687"
    by (simp add: RAND_GET_def clock_platform_def first_output_seed_1)
  ultimately show ?thesis
    by (simp add: seed seeded_table_seed_1)
qed

text \<open>
  Claim C8, amended.  At process start, before any call of \<^verbatim>\<open>glulx_setrandom\<close>, the mode
  is Native and the table is all-zero; nothing has seeded the native source, since
  \<^verbatim>\<open>RAND_SET_SEED\<close> runs only inside \<^verbatim>\<open>glulx_setrandom(0)\<close>.  The first call of
  \<^verbatim>\<open>glulx_random\<close> returns what \<^verbatim>\<open>RAND_GET\<close> yields from that unseeded state: the value
  of \<^verbatim>\<open>random()\<close> or \<^verbatim>\<open>rand_s()\<close> on builds that have them, and 0 on builds whose
  \<^verbatim>\<open>RAND_GET\<close> is \<^verbatim>\<open>mt_random\<close>.
\<close>

theorem process_start_unseeded:
  "rand_use_native (process_start x) = True
   \<and> mt_table (process_start x) = [0, 0, 0, 0]
   \<and> glulx_random p (process_start x) = RAND_GET p (process_start x)
   \<and> fst (glulx_random p (process_start x)) =
       (case build p of
          OS_STDC \<Rightarrow> 0
        | OS_UNIX \<Rightarrow> word_of_int (fst (random_long p x))
        | OS_WINDOWS_MSC_VER \<Rightarrow> fst (rand_s p x)
        | OS_WINDOWS \<Rightarrow> 0
        | NO_NATIVE_RNG \<Rightarrow> 0)"
  by (simp add: glulx_random_process_start RAND_GET_process_start)
    (simp add: process_start_def)

section \<open>What a call of \<^verbatim>\<open>glulx_random\<close> leaves alone\<close>

text \<open>
  Claim C9, as stated, fails in its second half.  On a build without a native RNG,
  after \<^verbatim>\<open>glulx_setrandom(0)\<close> with the clock reading 1 the mode is Native, and a call
  of \<^verbatim>\<open>glulx_random\<close> changes the table.
\<close>

theorem native_call_changes_table_counterexample:
  "rand_use_native (glulx_setrandom (clock_platform NO_NATIVE_RNG) 0 (process_start 1))
   \<and> mt_table (snd (glulx_random (clock_platform NO_NATIVE_RNG)
         (glulx_setrandom (clock_platform NO_NATIVE_RNG) 0 (process_start 1)))) \<noteq>
     mt_table (glulx_setrandom (clock_platform NO_NATIVE_RNG) 0 (process_start 1))"
proof -
  define W where "W = glulx_setrandom (clock_platform NO_NATIVE_RNG) 0 (process_start 1)"
  have W: "W = (process_start 1)\<lparr>mt_table := slots (SeedExpander 1)\<rparr>"
  proof -
    have "W = mt_seed_random 1 (process_start 1)"
      by (simp add: W_def glulx_setrandom_def RAND_SET_SEED_def clock_platform_def
          process_start_def)
    also have "\<dots> = (process_start 1)\<lparr>mt_table := slots (SeedExpander 1)\<rparr>"
      by (rule mt_seed_random_world) (simp add: process_start_def)
    finally show ?thesis .
  qed
  have t: "slots (SeedExpander 1) = [112534334, 2466076606, 3094215072, 916842724]"
    by (simp add: SeedExpander_def slots_def splitmix32_mix_def Let_def)
  have native: "rand_use_native W"
    by (simp add: W process_start_def)
  then have "glulx_random (clock_platform NO_NATIVE_RNG) W = mt_random W"
    by (simp add: glulx_random_def RAND_GET_def clock_platform_def)
  then have "mt_table (snd (glulx_random (clock_platform NO_NATIVE_RNG) W)) \<noteq> mt_table W"
    by (simp add: W t mt_random_table rotl_def)
  with native show ?thesis
    unfolding W_def by simp
qed

text \<open>
  Claim C9, amended.  Every call of \<^verbatim>\<open>glulx_random\<close>, in either mode and on every build,
  leaves the mode flag unchanged.  In Native mode it leaves the table untouched on the
  builds with a native RNG of their own (\<^verbatim>\<open>OS_UNIX\<close>, and \<^verbatim>\<open>OS_WINDOWS\<close> under Visual
  C++); on the builds whose \<^verbatim>\<open>RAND_GET\<close> is \<^verbatim>\<open>mt_random\<close> it advances the table by one
  core step.
\<close>

theorem glulx_random_frame:
  "rand_use_native (snd (glulx_random p w)) = rand_use_native w
   \<and> mt_table (snd (glulx_random p (w\<lparr>rand_use_native := True\<rparr>))) =
       (case build p of
          OS_STDC \<Rightarrow> mt_table (snd (mt_random w))
        | OS_UNIX \<Rightarrow> mt_table w
        | OS_WINDOWS_MSC_VER \<Rightarrow> mt_table w
        | OS_WINDOWS \<Rightarrow> mt_table (snd (mt_random w))
        | NO_NATIVE_RNG \<Rightarrow> mt_table (snd (mt_random w)))"
proof -
  have "rand_use_native (snd (glulx_random p w)) = rand_use_native w"
    by (simp add: glulx_random_def RAND_GET_flag mt_random_frame)
  moreover have "mt_table (snd (mt_random (w\<lparr>rand_use_native := True\<rparr>))) =
      mt_table (snd (mt_random w))"
    by (simp add: mt_random_def Let_def)
  then have "mt_table (snd (glulx_random p (w\<lparr>rand_use_native := True\<rparr>))) =
       (case build p of
          OS_STDC \<Rightarrow> mt_table (snd (mt_random w))
        | OS_UNIX \<Rightarrow> mt_table w
        | OS_WINDOWS_MSC_VER \<Rightarrow> mt_table w
        | OS_WINDOWS \<Rightarrow> mt_table (snd (mt_random w))
        | NO_NATIVE_RNG \<Rightarrow> mt_table (snd (mt_random w)))"
    by (simp add: glulx_random_def RAND_GET_table split: build.split)
  ultimately show ?thesis by simp
qed

section \<open>The unseeded fallback build\<close>

lemma unseeded_mt_calls:
  assumes "RAND_GET p (process_start x) = mt_random (process_start x)"
  shows "glulx_random_calls p n (process_start x) = (replicate n 0, process_start x)"
proof (induction n)
  case 0
  show ?case by simp
next
  case (Suc n)
  have "glulx_random p (process_start x) = (0, process_start x)"
    using assms by (simp add: glulx_random_process_start mt_random_process_start)
  with Suc.IH show ?case by simp
qed

text \<open>
  Claim C10.  On a build where no native RNG macro is defined, so that \<^verbatim>\<open>RAND_GET\<close> is
  \<^verbatim>\<open>mt_random\<close>, calls of \<^verbatim>\<open>glulx_random\<close> made before any call of \<^verbatim>\<open>glulx_setrandom\<close>
  find the all-zero table, which is a fixed point of the core step: each of the \<open>n\<close>
  calls returns 0 and the state stays the one of process start.
\<close>

theorem unseeded_fallback_returns_0:
  assumes "build p = NO_NATIVE_RNG"
  shows "glulx_random_calls p n (process_start x) = (replicate n 0, process_start x)
    \<and> mt_table (process_start x) = [0, 0, 0, 0]"
proof -
  have "RAND_GET p (process_start x) = mt_random (process_start x)"
    using assms by (simp add: RAND_GET_def)
  then have "glulx_random_calls p n (process_start x) = (replicate n 0, process_start x)"
    by (rule unseeded_mt_calls)
  then show ?thesis by (simp add: process_start_def)
qed

theorem unseeded_fallback_returns_0_witness:
  "build (clock_platform NO_NATIVE_RNG) = NO_NATIVE_RNG
   \<and> glulx_random_calls (clock_platform NO_NATIVE_RNG) 3 (process_start 1700000000) =
       ([0, 0, 0], process_start 1700000000)
   \<and> mt_table (process_start (1700000000::int)) = [0, 0, 0, 0]"
proof -
  have 1: "build (clock_platform NO_NATIVE_RNG) = NO_NATIVE_RNG"
    by (simp add: clock_platform_def)
  have "replicate 3 (0 :: glui32) = [0, 0, 0]" by (simp add: eval_nat_numeral)
  with 1 unseeded_fallback_returns_0 [OF 1, of 3 1700000000] show ?thesis by simp
qed

end
